theory Spec2Isabelle
  imports Main "HOL-Library.Word" "HOL-Library.Monad_Syntax"
begin

unbundle bit_operations_syntax

section \<open>The simulated RAM of ptsim.c\<close>

text \<open>
  The C program keeps one global array \<open>unsigned char mem[MEM_SIZE]\<close>. It is modelled
  as a store from addresses to bytes. The C code indexes the array with \<open>int\<close>
  expressions and never checks them, so an index outside \<open>0..MEM_SIZE-1\<close> is undefined
  behaviour in C: every array access of the model checks the index and yields \<open>None\<close>
  there. C \<open>int\<close> values are modelled as \<open>int\<close>; the only arithmetic that could leave
  the 32-bit range is \<open>proc_num + PTP_OFFSET\<close>, whose result is used as an index at
  once and is out of bounds (hence \<open>None\<close>) whenever it would overflow.
\<close>

type_synonym memory = "int \<Rightarrow> 8 word"

definition MEM_SIZE :: int where "MEM_SIZE = 16384"
definition PAGE_SIZE :: int where "PAGE_SIZE = 256"
definition PAGE_COUNT :: int where "PAGE_COUNT = 64"
definition PAGE_SHIFT :: nat where "PAGE_SHIFT = 8"
definition PTP_OFFSET :: int where "PTP_OFFSET = 64"

text \<open>\<open>mem[a]\<close> read as an rvalue (promoted to \<open>int\<close>).\<close>

definition mem_read :: "memory \<Rightarrow> int \<Rightarrow> int option" where
  "mem_read mem a = (if 0 \<le> a \<and> a < MEM_SIZE then Some (uint (mem a)) else None)"

text \<open>\<open>mem[a] = v\<close>: the \<open>int\<close> value is converted to \<open>unsigned char\<close>.\<close>

definition mem_write :: "memory \<Rightarrow> int \<Rightarrow> int \<Rightarrow> memory option" where
  "mem_write mem a v = (if 0 \<le> a \<and> a < MEM_SIZE then Some (mem(a := word_of_int v)) else None)"

text \<open>What the program prints, one event for each \<open>printf\<close> of the core operations.\<close>

datatype event =
    OOM_page_table int
  | OOM_data_page int
  | Store_event int int int int
  | Load_event int int int int

section \<open>The operations\<close>

definition get_address :: "int \<Rightarrow> int \<Rightarrow> int" where
  "get_address page offset = (push_bit PAGE_SHIFT page) OR offset"

text \<open>\<open>memset(mem, 0, MEM_SIZE)\<close>, then \<open>mem[get_address(0, 0)] = 1\<close>.\<close>

definition initialize_mem :: memory where
  "initialize_mem = (\<lambda>_. 0)(get_address 0 0 := 1)"

definition get_page_table :: "int \<Rightarrow> memory \<Rightarrow> (int \<times> memory) option" where
  "get_page_table proc_num mem = do {
     let ptp_addr = get_address 0 (PTP_OFFSET + proc_num);
     v \<leftarrow> mem_read mem ptp_addr;
     Some (v, mem)
   }"

text \<open>
  The \<open>do ... while\<close> loop of \<open>allocate_page\<close>: one call is one execution of the body
  (with the pre-increment of \<open>map_entry\<close>) followed by the test of the loop condition.
  The result is the final value of \<open>free_page\<close>.
\<close>

function allocate_loop :: "memory \<Rightarrow> int \<Rightarrow> int \<Rightarrow> int option" where
  "allocate_loop mem map_entry free_page =
     (let map_entry' = map_entry + 1 in
      do {
        b \<leftarrow> mem_read mem map_entry';
        let free_page' = (if b = 0 then map_entry' else free_page);
        if map_entry' < PAGE_COUNT \<and> free_page' < 0
        then allocate_loop mem map_entry' free_page'
        else Some free_page'
      })"
  by pat_completeness auto
termination
  by (relation "measure (\<lambda>(mem, map_entry, free_page). nat (PAGE_COUNT - map_entry))") auto

definition allocate_page :: "memory \<Rightarrow> (int \<times> memory) option" where
  "allocate_page mem = do {
     free_page \<leftarrow> allocate_loop mem 0 (- 1);
     if free_page = - 1 then Some (0xff, mem)
     else do {
       mem' \<leftarrow> mem_write mem free_page 1;
       Some (free_page, mem')
     }
   }"

definition deallocate_page :: "int \<Rightarrow> memory \<Rightarrow> memory option" where
  "deallocate_page page_number mem = mem_write mem page_number 0"

text \<open>The \<open>for\<close> loop of \<open>new_process\<close>, from the value \<open>i\<close> of its counter on.\<close>

function new_process_loop :: "int \<Rightarrow> int \<Rightarrow> int \<Rightarrow> int \<Rightarrow> memory \<Rightarrow> (event list \<times> memory) option" where
  "new_process_loop proc_num page_count page_table_page i mem =
     (if i < page_count then
        do {
          (new_page, mem1) \<leftarrow> allocate_page mem;
          if new_page = 0xff then Some ([OOM_data_page proc_num], mem1)
          else do {
            mem2 \<leftarrow> mem_write mem1 (get_address page_table_page i) new_page;
            new_process_loop proc_num page_count page_table_page (i + 1) mem2
          }
        }
      else Some ([], mem))"
  by pat_completeness auto
termination
  by (relation "measure (\<lambda>(proc_num, page_count, page_table_page, i, mem). nat (page_count - i))") auto

definition new_process :: "int \<Rightarrow> int \<Rightarrow> memory \<Rightarrow> (event list \<times> memory) option" where
  "new_process proc_num page_count mem = do {
     (page_table_page, mem1) \<leftarrow> allocate_page mem;
     if page_table_page = 0xff then Some ([OOM_page_table proc_num], mem1)
     else do {
       mem2 \<leftarrow> mem_write mem1 (PTP_OFFSET + proc_num) page_table_page;
       new_process_loop proc_num page_count page_table_page 0 mem2
     }
   }"

text \<open>
  The \<open>for\<close> loop of \<open>kill_process\<close>. The source reads \<open>mem[page_i]\<close> twice, once in the
  test and once as the argument of \<open>deallocate_page\<close>.
\<close>

function kill_loop :: "int \<Rightarrow> int \<Rightarrow> memory \<Rightarrow> memory option" where
  "kill_loop page_table_page i mem =
     (if i < 256 then
        do {
          let page_i = get_address page_table_page i;
          b \<leftarrow> mem_read mem page_i;
          mem1 \<leftarrow> (if b \<noteq> 0 then do {
                      b' \<leftarrow> mem_read mem page_i;
                      deallocate_page b' mem
                    } else Some mem);
          kill_loop page_table_page (i + 1) mem1
        }
      else Some mem)"
  by pat_completeness auto
termination
  by (relation "measure (\<lambda>(page_table_page, i, mem). nat (256 - i))") auto

definition kill_process :: "int \<Rightarrow> memory \<Rightarrow> (event list \<times> memory) option" where
  "kill_process proc_num mem = do {
     page_table_page \<leftarrow> mem_read mem (proc_num + PTP_OFFSET);
     mem1 \<leftarrow> mem_write mem (proc_num + PTP_OFFSET) 0;
     mem2 \<leftarrow> kill_loop page_table_page 0 mem1;
     mem3 \<leftarrow> deallocate_page page_table_page mem2;
     Some ([], mem3)
   }"

text \<open>
  \<open>v_addr >> PAGE_SHIFT\<close> on a negative \<open>int\<close> is implementation-defined in C; the
  arithmetic shift of the usual compilers is \<open>drop_bit\<close> on \<open>int\<close>.
\<close>

definition get_physical_addr :: "int \<Rightarrow> int \<Rightarrow> memory \<Rightarrow> (int \<times> memory) option" where
  "get_physical_addr proc_num v_addr mem = do {
     page_table_page \<leftarrow> mem_read mem (proc_num + PTP_OFFSET);
     let virt_page = drop_bit PAGE_SHIFT v_addr;
     physical_page \<leftarrow> mem_read mem (get_address page_table_page virt_page);
     let offset = v_addr AND 255;
     Some (get_address physical_page offset, mem)
   }"

definition store_value :: "int \<Rightarrow> int \<Rightarrow> int \<Rightarrow> memory \<Rightarrow> (event list \<times> memory) option" where
  "store_value proc_num v_addr val mem = do {
     (p_addr, mem1) \<leftarrow> get_physical_addr proc_num v_addr mem;
     mem2 \<leftarrow> mem_write mem1 p_addr val;
     Some ([Store_event proc_num v_addr p_addr val], mem2)
   }"

definition load_value :: "int \<Rightarrow> int \<Rightarrow> memory \<Rightarrow> (event list \<times> memory) option" where
  "load_value proc_num virt_addr mem = do {
     (physical_addr, mem1) \<leftarrow> get_physical_addr proc_num virt_addr mem;
     val \<leftarrow> mem_read mem1 physical_addr;
     Some ([Load_event proc_num virt_addr physical_addr val], mem1)
   }"

text \<open>
  The command loop of \<open>main\<close>, for the four commands that reach the core operations
  (\<open>np\<close>, \<open>kp\<close>, \<open>sb\<close>, \<open>lb\<close>). The two dump commands \<open>pfm\<close> and \<open>ppt\<close> only read the
  memory and print it; they are left out.
\<close>

datatype command = NP int int | KP int | SB int int int | LB int int

fun run_command :: "command \<Rightarrow> memory \<Rightarrow> (event list \<times> memory) option" where
  "run_command (NP proc_num page_count) mem = new_process proc_num page_count mem"
| "run_command (KP proc_num) mem = kill_process proc_num mem"
| "run_command (SB proc_num v_addr val) mem = store_value proc_num v_addr val mem"
| "run_command (LB proc_num v_addr) mem = load_value proc_num v_addr mem"

fun run_commands :: "command list \<Rightarrow> memory \<Rightarrow> (event list \<times> memory) option" where
  "run_commands [] mem = Some ([], mem)"
| "run_commands (c # cs) mem = do {
     (out1, mem1) \<leftarrow> run_command c mem;
     (out2, mem2) \<leftarrow> run_commands cs mem1;
     Some (out1 @ out2, mem2)
   }"

declare allocate_loop.simps [simp del]
declare new_process_loop.simps [simp del]
declare kill_loop.simps [simp del]

section \<open>Conditions on commands\<close>

text \<open>
  A virtual address of a process is mapped when the entry of its virtual page in the page
  table of the process is not 0.
\<close>

definition mapped :: "int \<Rightarrow> int \<Rightarrow> memory \<Rightarrow> bool" where
  "mapped proc_num v_addr mem =
     (case get_page_table proc_num mem of
        None \<Rightarrow> False
      | Some (page_table_page, _) \<Rightarrow>
          (case mem_read mem (get_address page_table_page (drop_bit PAGE_SHIFT v_addr)) of
             None \<Rightarrow> False
           | Some physical_page \<Rightarrow> physical_page \<noteq> 0))"

text \<open>
  The commands that keep away from byte 0 of the store: \<open>np\<close> and \<open>kp\<close> with a process
  id inside the directory, \<open>kp\<close> only for a process that has a page table, \<open>sb\<close> only to
  a mapped address. A run is safe when each command is safe in the store it starts from.
\<close>

fun page0_safe :: "command \<Rightarrow> memory \<Rightarrow> bool" where
  "page0_safe (NP proc_num page_count) mem = (0 \<le> proc_num \<and> proc_num < PAGE_SIZE - PTP_OFFSET)"
| "page0_safe (KP proc_num) mem =
     (0 \<le> proc_num \<and> proc_num < PAGE_SIZE - PTP_OFFSET \<and> mem (PTP_OFFSET + proc_num) \<noteq> 0)"
| "page0_safe (SB proc_num v_addr val) mem = mapped proc_num v_addr mem"
| "page0_safe (LB proc_num v_addr) mem = True"

fun page0_safe_run :: "command list \<Rightarrow> memory \<Rightarrow> bool" where
  "page0_safe_run [] mem = True"
| "page0_safe_run (c # cs) mem =
     (page0_safe c mem \<and>
      (case run_command c mem of None \<Rightarrow> False | Some (out, mem1) \<Rightarrow> page0_safe_run cs mem1))"

section \<open>Concrete memory states\<close>

text \<open>A store whose free map has no free page and whose directory entry 0 is set.\<close>

definition full_mem :: memory where
  "full_mem = (\<lambda>a. if 0 \<le> a \<and> a \<le> 64 then 1 else 0)"

text \<open>
  The store after \<open>new_process(1, n)\<close> on the initial store has taken \<open>k\<close> data pages:
  the bytes \<open>0 .. k+1\<close> of page 0 are 1, the directory entry of process 1 (byte 65) is 1,
  and the entries \<open>0 .. k-1\<close> of the page table in page 1 hold the pages \<open>2 .. k+1\<close>.
\<close>

definition np1_state :: "int \<Rightarrow> memory" where
  "np1_state k = (\<lambda>a. if 0 \<le> a \<and> a < k + 2 then 1
                       else if a = 65 then 1
                       else if 256 \<le> a \<and> a < 256 + k then word_of_int (a - 254)
                       else 0)"

text \<open>
  The store after \<open>np 0 2\<close> on the initial store, then after \<open>kp 0\<close>, then after \<open>np 1 0\<close>.
\<close>

definition created_mem :: memory where
  "created_mem = initialize_mem(1 := 1, 64 := 1, 2 := 1, 256 := 2, 3 := 1, 257 := 3)"

definition killed_mem :: memory where
  "killed_mem = created_mem(64 := 0, 2 := 0, 3 := 0, 1 := 0)"

definition reused_mem :: memory where
  "reused_mem = killed_mem(1 := 1, 65 := 1)"

text \<open>
  The store after \<open>np 0 2\<close> and a store of 0 to the unmapped address 512 of process 0;
  the store after \<open>np 0 2\<close>, \<open>kp 0\<close>, \<open>np 1 0\<close> and a store of 42 to address 0 of process 1.
\<close>

definition unmapped_store_mem :: memory where
  "unmapped_store_mem = created_mem(0 := 0)"

definition stored_mem :: memory where
  "stored_mem = reused_mem(512 := 42)"

text \<open>
  The store after \<open>np 0 2\<close>, \<open>kp 0\<close>, \<open>np 1 0\<close>, \<open>np 2 0\<close> and \<open>sb 1 0 2\<close>: process 2 has its
  page table in page 2, and entry 0 of that table is 2.
\<close>

definition forged_mem :: memory where
  "forged_mem = reused_mem(2 := 1, 66 := 2, 512 := 2)"




section \<open>Addresses and the allocator\<close>

lemma get_address_add: "0 \<le> off \<Longrightarrow> off < 256 \<Longrightarrow> get_address page off = page * 256 + off"
proof -
  assume a: "0 \<le> off" "off < 256"
  then have t: "take_bit 8 off = off" by (simp add: take_bit_int_eq_self)
  have "get_address page off = concat_bit 8 off page"
    by (simp add: get_address_def PAGE_SHIFT_def concat_bit_def t or.commute)
  also have "\<dots> = off + page * 256" by (simp add: concat_bit_eq t push_bit_eq_mult)
  finally show ?thesis by simp
qed

text \<open>
  The scan started at \<open>map_entry = m\<close> looks at the bytes \<open>m+1 .. 64\<close> in ascending
  order and stops at the first zero byte; it always returns.
\<close>

lemma allocate_loop_spec:
  "0 \<le> m \<Longrightarrow> m < 64 \<Longrightarrow> fp < 0 \<Longrightarrow>
   (\<exists>r. allocate_loop mem m fp = Some r \<and>
     ((r = fp \<and> (\<forall>j. m < j \<and> j \<le> 64 \<longrightarrow> mem j \<noteq> 0))
      \<or> (m < r \<and> r \<le> 64 \<and> mem r = 0 \<and> (\<forall>j. m < j \<and> j < r \<longrightarrow> mem j \<noteq> 0))))"
proof (induction mem m fp rule: allocate_loop.induct)
  case (1 mem m fp)
  show ?case
  proof (cases "mem (m + 1) = 0")
    case True
    then have "allocate_loop mem m fp = Some (m + 1)"
      using 1(2,3) by (subst allocate_loop.simps)
        (simp add: mem_read_def MEM_SIZE_def PAGE_COUNT_def Let_def uint_0_iff)
    then show ?thesis using True 1(2,3) by auto
  next
    case False
    show ?thesis
    proof (cases "m + 1 < 64")
      case True
      have u: "allocate_loop mem m fp = allocate_loop mem (m + 1) fp"
        using 1(2,3,4) False True by (subst allocate_loop.simps)
          (simp add: mem_read_def MEM_SIZE_def PAGE_COUNT_def Let_def uint_0_iff)
      have ih: "\<exists>r. allocate_loop mem (m + 1) fp = Some r \<and>
         ((r = fp \<and> (\<forall>j. m + 1 < j \<and> j \<le> 64 \<longrightarrow> mem j \<noteq> 0))
          \<or> (m + 1 < r \<and> r \<le> 64 \<and> mem r = 0 \<and> (\<forall>j. m + 1 < j \<and> j < r \<longrightarrow> mem j \<noteq> 0)))"
        apply (rule 1(1)[of "m + 1" "uint (mem (m + 1))" fp])
        using 1(2,3,4) False True
        by (auto simp add: mem_read_def MEM_SIZE_def PAGE_COUNT_def Let_def uint_0_iff)
      then obtain r where r: "allocate_loop mem (m + 1) fp = Some r"
         "(r = fp \<and> (\<forall>j. m + 1 < j \<and> j \<le> 64 \<longrightarrow> mem j \<noteq> 0))
          \<or> (m + 1 < r \<and> r \<le> 64 \<and> mem r = 0 \<and> (\<forall>j. m + 1 < j \<and> j < r \<longrightarrow> mem j \<noteq> 0))"
        by blast
      have step: "\<And>j. m < j \<Longrightarrow> j = m + 1 \<or> m + 1 < j" by arith
      from r(2) show ?thesis
      proof
        assume a: "r = fp \<and> (\<forall>j. m + 1 < j \<and> j \<le> 64 \<longrightarrow> mem j \<noteq> 0)"
        then have "\<forall>j. m < j \<and> j \<le> 64 \<longrightarrow> mem j \<noteq> 0" using step False by blast
        then show ?thesis using u r(1) a by simp
      next
        assume a: "m + 1 < r \<and> r \<le> 64 \<and> mem r = 0 \<and> (\<forall>j. m + 1 < j \<and> j < r \<longrightarrow> mem j \<noteq> 0)"
        then have "\<forall>j. m < j \<and> j < r \<longrightarrow> mem j \<noteq> 0" using step False by blast
        then show ?thesis using u r(1) a by simp
      qed
    next
      case F2: False
      have u: "allocate_loop mem m fp = Some fp"
        using 1(2,3,4) False F2 by (subst allocate_loop.simps)
          (simp add: mem_read_def MEM_SIZE_def PAGE_COUNT_def Let_def uint_0_iff)
      have "\<And>j. m < j \<and> j \<le> 64 \<Longrightarrow> j = m + 1" using F2 by arith
      then show ?thesis using u False by auto
    qed
  qed
qed

text \<open>
  What \<open>allocate_page\<close> does on any store: it returns, and either the bytes \<open>1..64\<close> are
  all nonzero, the result is \<open>0xff\<close> and the store is unchanged, or the result is the
  address \<open>r\<close> of the first zero byte among \<open>1..64\<close> and exactly that byte is set to 1.
\<close>

lemma allocate_page_spec:
  "\<exists>r mem'. allocate_page mem = Some (r, mem') \<and>
     ((r = 255 \<and> mem' = mem \<and> (\<forall>j. 0 < j \<and> j \<le> 64 \<longrightarrow> mem j \<noteq> 0))
      \<or> (0 < r \<and> r \<le> 64 \<and> mem r = 0 \<and> (\<forall>j. 0 < j \<and> j < r \<longrightarrow> mem j \<noteq> 0)
          \<and> mem' = mem(r := 1)))"
proof -
  obtain r where r: "allocate_loop mem 0 (- 1) = Some r"
     "(r = - 1 \<and> (\<forall>j. 0 < j \<and> j \<le> 64 \<longrightarrow> mem j \<noteq> 0))
      \<or> (0 < r \<and> r \<le> 64 \<and> mem r = 0 \<and> (\<forall>j. 0 < j \<and> j < r \<longrightarrow> mem j \<noteq> 0))"
    using allocate_loop_spec [of 0 "- 1" mem] by auto
  from r(2) show ?thesis
  proof
    assume "r = - 1 \<and> (\<forall>j. 0 < j \<and> j \<le> 64 \<longrightarrow> mem j \<noteq> 0)"
    then show ?thesis using r(1) by (simp add: allocate_page_def)
  next
    assume a: "0 < r \<and> r \<le> 64 \<and> mem r = 0 \<and> (\<forall>j. 0 < j \<and> j < r \<longrightarrow> mem j \<noteq> 0)"
    then have "allocate_page mem = Some (r, mem(r := 1))"
      using r(1) by (simp add: allocate_page_def mem_write_def MEM_SIZE_def)
    then show ?thesis using a by simp
  qed
qed

text \<open>The offset \<open>v_addr & 255\<close> is the remainder modulo the page size.\<close>

lemma offset_mod: "(v_addr :: int) AND 255 = v_addr mod 256"
proof -
  have "(255 :: int) = mask 8" by (simp add: mask_eq_exp_minus_1)
  then have "v_addr AND 255 = take_bit 8 v_addr" by (simp add: take_bit_eq_mask)
  then show ?thesis by (simp add: take_bit_eq_mod)
qed

lemma get_page_table_eq:
  "get_page_table p mem = mem_read mem (PTP_OFFSET + p) \<bind> (\<lambda>v. Some (v, mem))"
  by (simp add: get_page_table_def get_address_def)

section \<open>Address translation\<close>

text \<open>
  Claim C7. For a 16-bit virtual address and a process whose directory entry names a page
  of the store, \<open>get_physical_addr\<close> returns
  \<open>get_address (pageTable[v_addr >> 8]) (v_addr & 0xFF)\<close>, where the page table is the
  page named by the directory entry \<open>mem[PTP_OFFSET + proc_num]\<close> of the process: the
  entry is the byte at \<open>page_table_page * 256 + v_addr div 256\<close> and the result is that
  entry times 256 plus \<open>v_addr mod 256\<close>. Nothing is validated: when the page-table entry
  is 0 the result is the offset \<open>v_addr & 0xFF\<close> itself, an address inside page 0.
\<close>

theorem get_physical_addr_translate:
  assumes "0 \<le> v_addr" and "v_addr < 65536"
    and "get_page_table proc_num mem = Some (page_table_page, mem0)"
    and "page_table_page < PAGE_COUNT"
  shows "page_table_page = uint (mem (PTP_OFFSET + proc_num))
         \<and> get_physical_addr proc_num v_addr mem =
           Some (get_address (uint (mem (get_address page_table_page (drop_bit PAGE_SHIFT v_addr))))
                   (v_addr AND 255), mem)
         \<and> get_physical_addr proc_num v_addr mem =
           Some (uint (mem (page_table_page * 256 + v_addr div 256)) * 256 + v_addr mod 256, mem)
         \<and> (mem (get_address page_table_page (drop_bit PAGE_SHIFT v_addr)) = 0 \<longrightarrow>
              get_physical_addr proc_num v_addr mem = Some (v_addr AND 255, mem)
              \<and> 0 \<le> v_addr AND 255 \<and> v_addr AND 255 < PAGE_SIZE)"
proof -
  have ptp: "mem_read mem (proc_num + PTP_OFFSET) = Some page_table_page"
    using assms(3) by (auto simp: get_page_table_eq add.commute split: bind_splits)
  then have p0: "0 \<le> page_table_page"
    by (auto simp: mem_read_def split: if_splits)
  have dir: "page_table_page = uint (mem (PTP_OFFSET + proc_num))"
    using ptp by (auto simp: mem_read_def add.commute split: if_splits)
  have vpe: "drop_bit PAGE_SHIFT v_addr = v_addr div 256"
    by (simp add: PAGE_SHIFT_def drop_bit_eq_div)
  have vp: "0 \<le> drop_bit PAGE_SHIFT v_addr" "drop_bit PAGE_SHIFT v_addr < 256"
    using assms(1,2) by (simp_all add: PAGE_SHIFT_def drop_bit_eq_div)
  have ga: "get_address page_table_page (drop_bit PAGE_SHIFT v_addr)
              = page_table_page * 256 + v_addr div 256"
    using get_address_add [OF vp, of page_table_page] unfolding vpe .
  have rd: "mem_read mem (get_address page_table_page (drop_bit PAGE_SHIFT v_addr))
              = Some (uint (mem (get_address page_table_page (drop_bit PAGE_SHIFT v_addr))))"
    using vp p0 assms(4) by (simp add: ga vpe [symmetric] mem_read_def MEM_SIZE_def PAGE_COUNT_def)
  have main: "get_physical_addr proc_num v_addr mem =
           Some (get_address (uint (mem (get_address page_table_page (drop_bit PAGE_SHIFT v_addr))))
                   (v_addr AND 255), mem)"
    by (simp add: get_physical_addr_def ptp rd)
  define off where "off = v_addr AND 255"
  have offm: "off = v_addr mod 256" by (simp add: off_def offset_mod)
  then have off: "0 \<le> off" "off < 256" by simp_all
  have ar: "get_address pp off = pp * 256 + v_addr mod 256" for pp
    using get_address_add [OF off, of pp] by (simp add: offm)
  have arith: "get_physical_addr proc_num v_addr mem =
           Some (uint (mem (page_table_page * 256 + v_addr div 256)) * 256 + v_addr mod 256, mem)"
    using main ar unfolding ga by (simp add: off_def)
  have un: "get_physical_addr proc_num v_addr mem = Some (v_addr AND 255, mem)"
    if "mem (get_address page_table_page (drop_bit PAGE_SHIFT v_addr)) = 0"
    using main that ar [of 0] by (simp add: off_def offm flip: offset_mod)
  have ob: "0 \<le> v_addr AND 255 \<and> v_addr AND 255 < PAGE_SIZE"
    using off by (simp add: off_def PAGE_SIZE_def)
  show ?thesis using dir main arith un ob by blast
qed

theorem get_physical_addr_translate_witness:
  "get_physical_addr 0 300 created_mem = Some (812, created_mem) \<and>
   get_physical_addr 0 556 created_mem = Some (44, created_mem)"
  using get_physical_addr_translate [of 300 0 created_mem 1 created_mem]
    get_physical_addr_translate [of 556 0 created_mem 1 created_mem]
  by (simp add: get_page_table_def mem_read_def get_address_def created_mem_def initialize_mem_def
      PTP_OFFSET_def PAGE_COUNT_def PAGE_SHIFT_def MEM_SIZE_def)

text \<open>
  Claim C10. \<open>get_physical_addr\<close> and \<open>load_value\<close> leave the whole store unchanged,
  whatever the process id and the virtual address: whenever they return, the store they
  return is the store they were given.
\<close>

theorem translate_load_read_only:
  "(\<forall>a mem'. get_physical_addr proc_num v_addr mem = Some (a, mem') \<longrightarrow> mem' = mem) \<and>
   (\<forall>out mem'. load_value proc_num v_addr mem = Some (out, mem') \<longrightarrow> mem' = mem)"
  by (auto simp: get_physical_addr_def load_value_def split: bind_splits)

theorem translate_load_read_only_witness:
  "get_physical_addr 0 0 initialize_mem = Some (256, initialize_mem) \<and>
   load_value 0 0 initialize_mem = Some ([Load_event 0 0 256 0], initialize_mem)"
proof -
  have a: "map_option fst (get_physical_addr 0 0 initialize_mem) = Some 256"
    by (simp add: get_physical_addr_def mem_read_def get_address_def initialize_mem_def
      PTP_OFFSET_def PAGE_SHIFT_def MEM_SIZE_def)
  have b: "map_option fst (load_value 0 0 initialize_mem) = Some [Load_event 0 0 256 0]"
    by (simp add: load_value_def get_physical_addr_def mem_read_def get_address_def
      initialize_mem_def PTP_OFFSET_def PAGE_SHIFT_def MEM_SIZE_def)
  from a obtain m1 where m1: "get_physical_addr 0 0 initialize_mem = Some (256, m1)"
    by (cases "get_physical_addr 0 0 initialize_mem") auto
  from b obtain m2 where m2: "load_value 0 0 initialize_mem = Some ([Load_event 0 0 256 0], m2)"
    by (cases "load_value 0 0 initialize_mem") auto
  have "m1 = initialize_mem" "m2 = initialize_mem"
    using m1 m2 translate_load_read_only [of 0 0 initialize_mem] by blast+
  then show ?thesis using m1 m2 by simp
qed

section \<open>Creating a process\<close>

text \<open>
  Claim C8. When the allocation of the page table at the start of \<open>new_process\<close> returns
  the sentinel \<open>0xff\<close>, \<open>new_process\<close> prints the page-table OOM message and returns with
  the store exactly as it was: no directory entry is written, so the entry of the process
  keeps its value (0 for a process that did not exist).
\<close>

theorem new_process_page_table_oom:
  assumes "allocate_page mem = Some (0xff, mem')"
  shows "new_process proc_num page_count mem = Some ([OOM_page_table proc_num], mem)"
proof -
  have "mem' = mem" using allocate_page_spec [of mem] assms by auto
  then show ?thesis using assms by (simp add: new_process_def)
qed

theorem new_process_page_table_oom_witness:
  "allocate_page full_mem = Some (0xff, full_mem) \<and>
   new_process 3 2 full_mem = Some ([OOM_page_table 3], full_mem)"
proof -
  have h: "allocate_page full_mem = Some (0xff, full_mem)"
    using allocate_page_spec [of full_mem] by (auto simp: full_mem_def)
  show ?thesis using h new_process_page_table_oom [OF h, of 3 2] by simp
qed

section \<open>Filling the store with one process\<close>

lemma np1_state_alloc:
  assumes "0 \<le> k" and "k \<le> 62"
  shows "allocate_page (np1_state k) = Some (k + 2, (np1_state k)(k + 2 := 1))"
proof -
  obtain r mem' where r: "allocate_page (np1_state k) = Some (r, mem')"
    and c: "(r = 255 \<and> mem' = np1_state k \<and> (\<forall>j. 0 < j \<and> j \<le> 64 \<longrightarrow> np1_state k j \<noteq> 0))
      \<or> (0 < r \<and> r \<le> 64 \<and> np1_state k r = 0 \<and> (\<forall>j. 0 < j \<and> j < r \<longrightarrow> np1_state k j \<noteq> 0)
          \<and> mem' = (np1_state k)(r := 1))"
    using allocate_page_spec [of "np1_state k"] by blast
  have z: "np1_state k (k + 2) = 0" using assms by (simp add: np1_state_def)
  have nz: "\<And>j. 0 < j \<Longrightarrow> j < k + 2 \<Longrightarrow> np1_state k j \<noteq> 0" by (simp add: np1_state_def)
  from c show ?thesis
  proof
    assume "r = 255 \<and> mem' = np1_state k \<and> (\<forall>j. 0 < j \<and> j \<le> 64 \<longrightarrow> np1_state k j \<noteq> 0)"
    then have "np1_state k (k + 2) \<noteq> 0" using assms by simp
    then show ?thesis using z by simp
  next
    assume a: "0 < r \<and> r \<le> 64 \<and> np1_state k r = 0 \<and> (\<forall>j. 0 < j \<and> j < r \<longrightarrow> np1_state k j \<noteq> 0)
          \<and> mem' = (np1_state k)(r := 1)"
    have "\<not> r < k + 2" using a nz by blast
    moreover have "\<not> k + 2 < r" using a z assms by auto
    ultimately have "r = k + 2" by simp
    then show ?thesis using r a by simp
  qed
qed

lemma np1_state_step:
  assumes "0 \<le> k" and "k \<le> 62" and "k < n"
  shows "new_process_loop 1 n 1 k (np1_state k) = new_process_loop 1 n 1 (k + 1) (np1_state (k + 1))"
proof -
  have ga: "get_address 1 k = 256 + k" using assms by (simp add: get_address_add)
  have wr: "mem_write ((np1_state k)(k + 2 := 1)) (get_address 1 k) (k + 2) = Some (np1_state (k + 1))"
    unfolding ga mem_write_def using assms by (auto simp: MEM_SIZE_def np1_state_def fun_eq_iff)
  show ?thesis
    using assms
    by (subst new_process_loop.simps) (simp add: np1_state_alloc wr)
qed

lemma np1_state_run:
  "j \<le> 63 \<Longrightarrow> int j \<le> n \<Longrightarrow>
   new_process_loop 1 n 1 0 (np1_state 0) = new_process_loop 1 n 1 (int j) (np1_state (int j))"
proof (induction j)
  case 0
  then show ?case by simp
next
  case (Suc j)
  then have "new_process_loop 1 n 1 0 (np1_state 0) = new_process_loop 1 n 1 (int j) (np1_state (int j))"
    by simp
  also have "\<dots> = new_process_loop 1 n 1 (int j + 1) (np1_state (int j + 1))"
    using Suc.prems by (intro np1_state_step) simp_all
  finally show ?case by (simp add: add.commute)
qed

lemma np1_state_start:
  "new_process 1 n initialize_mem = new_process_loop 1 n 1 0 (np1_state 0)"
proof -
  have i0: "initialize_mem = (\<lambda>_. 0)(0 := 1)" by (simp add: initialize_mem_def get_address_def)
  obtain r mem' where r: "allocate_page initialize_mem = Some (r, mem')"
    and c: "(r = 255 \<and> mem' = initialize_mem \<and> (\<forall>j. 0 < j \<and> j \<le> 64 \<longrightarrow> initialize_mem j \<noteq> 0))
      \<or> (0 < r \<and> r \<le> 64 \<and> initialize_mem r = 0 \<and> (\<forall>j. 0 < j \<and> j < r \<longrightarrow> initialize_mem j \<noteq> 0)
          \<and> mem' = initialize_mem(r := 1))"
    using allocate_page_spec [of initialize_mem] by blast
  have z: "initialize_mem 1 = 0" by (simp add: i0)
  have "\<not> 1 < r" using c z by auto
  moreover have "0 < r \<and> r \<le> 64 \<and> mem' = initialize_mem(r := 1)" using c z by auto
  ultimately have "r = 1 \<and> mem' = initialize_mem(1 := 1)"
    by (cases "r = 1") auto
  then have a: "allocate_page initialize_mem = Some (1, initialize_mem(1 := 1))" using r by simp
  have eq: "initialize_mem(1 := 1, 65 := 1) = np1_state 0"
    by (auto simp: np1_state_def fun_eq_iff i0)
  show ?thesis
    by (simp add: new_process_def a mem_write_def MEM_SIZE_def PTP_OFFSET_def eq)
qed

lemma np1_state_exhausted:
  "allocate_page (np1_state 63) = Some (255, np1_state 63)"
  using allocate_page_spec [of "np1_state 63"] by (auto simp: np1_state_def)

text \<open>
  Claim C1 (what the code does where the claim fails). \<open>new_process(1, 62)\<close> on the
  initial store completes and leaves no page among \<open>1..63\<close> free. The claim says that
  \<open>allocate_page\<close> then returns the sentinel \<open>0xff\<close> and touches nothing outside the free
  map. The loop of the code runs once more, with \<open>map_entry = 64\<close>: it reads byte 64, the
  directory entry of process 0, finds it 0, returns page number 64 and sets that byte
  to 1.
\<close>

theorem allocate_page_beyond_free_map:
  "new_process 1 62 initialize_mem = Some ([], np1_state 62) \<and>
   {j. 0 < j \<and> j < PAGE_COUNT \<and> np1_state 62 j = 0} = {} \<and>
   allocate_page (np1_state 62) = Some (64, (np1_state 62)(64 := 1))"
proof -
  have "new_process 1 62 initialize_mem = new_process_loop 1 62 1 62 (np1_state 62)"
    using np1_state_run [of 62 62] by (simp add: np1_state_start)
  then have a: "new_process 1 62 initialize_mem = Some ([], np1_state 62)"
    by (simp add: new_process_loop.simps)
  have b: "allocate_page (np1_state 62) = Some (64, (np1_state 62)(64 := 1))"
    using np1_state_alloc [of 62] by simp
  show ?thesis using a b by (simp add: np1_state_def PAGE_COUNT_def)
qed

text \<open>
  Claim C4 (what the code does where the claim fails). On the initial store
  \<open>new_process(1, 64)\<close> takes page 1 for the page table and the 62 data pages \<open>2..63\<close>;
  the claim says the next request, of index 62, fails. In the code that request succeeds:
  \<open>allocate_page\<close> returns 64, so entry 62 of the page table becomes 64 and byte 64 of
  page 0, the directory entry of process 0, becomes 1. The data-page OOM is printed one
  request later, at index 63, whose entry stays 0. For the same reason \<open>new_process(1, 63)\<close>
  completes with no OOM at all, although 63 exceeds the 63 free pages minus one.
\<close>

theorem new_process_64_on_fresh_store:
  "new_process 1 64 initialize_mem = Some ([OOM_data_page 1], np1_state 63) \<and>
   np1_state 63 (get_address 1 62) = 64 \<and>
   np1_state 63 (get_address 1 63) = 0 \<and>
   np1_state 63 (PTP_OFFSET + 0) = 1 \<and>
   new_process 1 63 initialize_mem = Some ([], np1_state 63)"
proof -
  have "new_process 1 64 initialize_mem = new_process_loop 1 64 1 63 (np1_state 63)"
    using np1_state_run [of 63 64] by (simp add: np1_state_start)
  then have a: "new_process 1 64 initialize_mem = Some ([OOM_data_page 1], np1_state 63)"
    by (simp add: new_process_loop.simps np1_state_exhausted)
  have "new_process 1 63 initialize_mem = new_process_loop 1 63 1 63 (np1_state 63)"
    using np1_state_run [of 63 63] by (simp add: np1_state_start)
  then have b: "new_process 1 63 initialize_mem = Some ([], np1_state 63)"
    by (simp add: new_process_loop.simps)
  show ?thesis using a b by (simp add: np1_state_def get_address_def PAGE_SHIFT_def PTP_OFFSET_def)
qed

section \<open>Killing a process\<close>

lemma uint8_bounds: "0 \<le> uint (w :: 8 word) \<and> uint w < 256"
  using uint_lt2p [of w] by simp

lemma uint8_pos: "(w :: 8 word) \<noteq> 0 \<Longrightarrow> 0 < uint w"
proof -
  assume "w \<noteq> 0"
  then have "uint w \<noteq> 0" by (simp add: uint_0_iff)
  moreover have "0 \<le> uint w" by simp
  ultimately show ?thesis by arith
qed

lemma kill_loop_end: "\<not> i < 256 \<Longrightarrow> kill_loop ptp i mem = Some mem"
  by (subst kill_loop.simps) simp

lemma kill_loop_step:
  assumes "i < 256" and "0 \<le> get_address ptp i" and "get_address ptp i < MEM_SIZE"
  shows "kill_loop ptp i mem =
         kill_loop ptp (i + 1)
           (if mem (get_address ptp i) = 0 then mem else mem(uint (mem (get_address ptp i)) := 0))"
  using assms uint8_bounds [of "mem (get_address ptp i)"]
  by (subst kill_loop.simps)
     (simp add: mem_read_def mem_write_def deallocate_page_def Let_def uint_0_iff MEM_SIZE_def)

lemma kill_loop_oob:
  assumes "i < 256" and "\<not> (0 \<le> get_address ptp i \<and> get_address ptp i < MEM_SIZE)"
  shows "kill_loop ptp i mem = None"
  using assms by (subst kill_loop.simps) (auto simp add: mem_read_def Let_def)

text \<open>The loop writes only to the bytes \<open>1..255\<close> of page 0.\<close>

lemma kill_loop_frame:
  "kill_loop ptp i mem = Some mem' \<Longrightarrow> a \<le> 0 \<or> 256 \<le> a \<Longrightarrow> mem' a = mem a"
proof (induction ptp i mem rule: kill_loop.induct)
  case (1 ptp i mem)
  show ?case
  proof (cases "i < 256")
    case False
    then show ?thesis using 1(2) by (simp add: kill_loop_end)
  next
    case True
    show ?thesis
    proof (cases "0 \<le> get_address ptp i \<and> get_address ptp i < MEM_SIZE")
      case False
      then show ?thesis using 1(2) True by (simp add: kill_loop_oob)
    next
      case ib: True
      let ?b = "mem (get_address ptp i)"
      let ?m1 = "if ?b = 0 then mem else mem(uint ?b := 0)"
      have k: "kill_loop ptp (i + 1) ?m1 = Some mem'"
        using 1(2) kill_loop_step [of i ptp mem] True ib by simp
      have rd: "mem_read mem (get_address ptp i) = Some (uint ?b)"
        using ib by (simp add: mem_read_def)
      have d: "(if uint ?b \<noteq> 0 then mem_read mem (get_address ptp i) \<bind> (\<lambda>b'. deallocate_page b' mem)
                else Some mem) = Some ?m1"
        using uint8_bounds [of ?b]
        by (simp add: rd deallocate_page_def mem_write_def MEM_SIZE_def uint_0_iff)
      have "mem' a = ?m1 a"
        using 1(1) [OF True refl rd d k 1(3)] .
      moreover have "?m1 a = mem a"
        using 1(3) uint8_bounds [of ?b] by (auto simp: uint_0_iff)
      ultimately show ?thesis by simp
    qed
  qed
qed


lemma kill_loop_zeros:
  assumes "0 \<le> ptp" and "ptp < 64"
  shows "0 \<le> i \<Longrightarrow> (\<forall>j. i \<le> j \<and> j < 256 \<longrightarrow> mem (ptp * 256 + j) = 0) \<Longrightarrow>
         kill_loop ptp i mem = Some mem"
proof (induction "nat (256 - i)" arbitrary: i)
  case 0
  then show ?case by (simp add: kill_loop_end)
next
  case (Suc n)
  then have lt: "i < 256" and i0: "0 \<le> i" by simp_all
  have ga: "get_address ptp i = ptp * 256 + i" using lt i0 by (simp add: get_address_add)
  have ib: "0 \<le> get_address ptp i" "get_address ptp i < MEM_SIZE"
    using assms lt i0 by (simp_all add: ga MEM_SIZE_def)
  have z: "mem (ptp * 256 + i) = 0" using Suc(4) lt by simp
  have "kill_loop ptp i mem = kill_loop ptp (i + 1) mem"
    using kill_loop_step [OF lt ib, of mem] by (simp add: ga z)
  also have "\<dots> = Some mem"
    using Suc(1) [of "i + 1"] Suc(2) Suc(4) i0 by simp
  finally show ?case .
qed

text \<open>
  Claim C2 (what the code does where the claim fails). On the initial store process 0 has
  no page table: its directory entry is 0. \<open>kill_process(0)\<close> is not a no-op there. It
  takes page 0 for the page table, whose entry 0 is the free-map byte of page 0 itself,
  and ends with \<open>deallocate_page(0)\<close>: the free-map entry of page 0 goes from 1 to 0 and
  the store is left all zero.
\<close>

theorem kill_process_without_page_table:
  "initialize_mem (PTP_OFFSET + 0) = 0 \<and> initialize_mem 0 = 1 \<and>
   kill_process 0 initialize_mem = Some ([], \<lambda>_. 0)"
proof -
  have i0: "initialize_mem = (\<lambda>_. 0)(0 := 1)" by (simp add: initialize_mem_def get_address_def)
  have w: "initialize_mem(64 := 0) = initialize_mem" "initialize_mem(1 := 0) = initialize_mem"
    by (auto simp: i0 fun_eq_iff)
  have "kill_loop 0 0 initialize_mem = kill_loop 0 (0 + 1) (initialize_mem(1 := 0))"
    by (subst kill_loop_step) (simp_all add: get_address_def MEM_SIZE_def i0)
  also have "\<dots> = kill_loop 0 (0 + 1) initialize_mem" by (simp only: w)
  also have "\<dots> = Some initialize_mem"
    by (rule kill_loop_zeros) (simp_all add: i0)
  finally have k: "kill_loop 0 0 initialize_mem = Some initialize_mem" .
  have r: "mem_read initialize_mem PTP_OFFSET = Some 0"
    by (simp add: mem_read_def PTP_OFFSET_def MEM_SIZE_def i0)
  have w1: "mem_write initialize_mem PTP_OFFSET 0 = Some initialize_mem"
    using w(1) by (simp add: mem_write_def PTP_OFFSET_def MEM_SIZE_def)
  have d: "deallocate_page 0 initialize_mem = Some (\<lambda>_. 0)"
    by (simp add: deallocate_page_def mem_write_def MEM_SIZE_def) (simp add: i0 fun_eq_iff)
  have "kill_process 0 initialize_mem = Some ([], \<lambda>_. 0)"
    by (simp add: kill_process_def r w1 k d)
  then show ?thesis by (simp add: i0 PTP_OFFSET_def)
qed

text \<open>
  Killing a process whose id is in range and whose directory entry is not 0 writes only
  to the bytes \<open>1..255\<close> of page 0.
\<close>

lemma kill_process_frame:
  assumes "0 \<le> p" and "p < PAGE_SIZE - PTP_OFFSET" and "mem (PTP_OFFSET + p) \<noteq> 0"
    and "kill_process p mem = Some (out, mem')"
    and "a \<le> 0 \<or> 256 \<le> a"
  shows "mem' a = mem a"
proof -
  define ptp where "ptp = uint (mem (p + PTP_OFFSET))"
  have ptp: "0 < ptp" "ptp < 256"
    using uint8_bounds [of "mem (p + PTP_OFFSET)"] assms(3)
    by (simp_all add: ptp_def add.commute uint_0_iff less_le)
  have pb: "64 \<le> p + PTP_OFFSET" "p + PTP_OFFSET < 256"
    using assms(1,2) by (simp_all add: PAGE_SIZE_def PTP_OFFSET_def)
  obtain m2 where m2: "kill_loop ptp 0 (mem(p + PTP_OFFSET := 0)) = Some m2"
    and m3: "mem' = m2(ptp := 0)"
    using assms(4) pb ptp
    by (auto simp: kill_process_def mem_read_def mem_write_def deallocate_page_def MEM_SIZE_def
        ptp_def split: bind_splits if_splits)
  have "m2 a = (mem(p + PTP_OFFSET := 0)) a" using kill_loop_frame [OF m2 assms(5)] .
  then show ?thesis using m3 assms(5) ptp pb by auto
qed

section \<open>Frame properties of creating a process\<close>

lemma get_address_ge:
  assumes "0 < page" and "0 \<le> off"
  shows "256 \<le> get_address page off"
proof -
  have "256 * 1 \<le> 256 * page" using assms(1) by simp
  then have "256 \<le> push_bit PAGE_SHIFT page" by (simp add: PAGE_SHIFT_def push_bit_eq_mult)
  also have "\<dots> \<le> push_bit PAGE_SHIFT page OR off" using assms(2) by (rule or_greater_eq)
  finally show ?thesis by (simp add: get_address_def)
qed

lemma new_process_loop_end:
  "\<not> i < n \<Longrightarrow> new_process_loop p n ptp i mem = Some ([], mem)"
  by (subst new_process_loop.simps) simp

lemma new_process_loop_oom:
  "i < n \<Longrightarrow> allocate_page mem = Some (255, m1) \<Longrightarrow>
   new_process_loop p n ptp i mem = Some ([OOM_data_page p], m1)"
  by (subst new_process_loop.simps) simp

lemma new_process_loop_step:
  "i < n \<Longrightarrow> allocate_page mem = Some (r, m1) \<Longrightarrow> r \<noteq> 255 \<Longrightarrow>
   new_process_loop p n ptp i mem =
     mem_write m1 (get_address ptp i) r \<bind> new_process_loop p n ptp (i + 1)"
  by (subst new_process_loop.simps) simp

text \<open>
  The loop of \<open>new_process\<close> writes only to bytes \<open>1..64\<close> of page 0 and to the
  page-table entries of the indices it runs through.
\<close>

lemma new_process_loop_frame:
  assumes "0 < ptp"
  shows "0 \<le> i \<Longrightarrow> new_process_loop p n ptp i mem = Some (out, mem') \<Longrightarrow>
         a \<le> 0 \<or> (64 < a \<and> (\<forall>j. i \<le> j \<and> j < n \<longrightarrow> a \<noteq> get_address ptp j)) \<Longrightarrow>
         mem' a = mem a"
proof (induction "nat (n - i)" arbitrary: i mem)
  case 0
  then have "\<not> i < n" by simp
  then show ?case using 0 by (simp add: new_process_loop_end)
next
  case (Suc k)
  then have lt: "i < n" by simp
  obtain r m1 where al: "allocate_page mem = Some (r, m1)"
    and c: "(r = 255 \<and> m1 = mem) \<or> (0 < r \<and> r \<le> 64 \<and> m1 = mem(r := 1))"
    using allocate_page_spec [of mem] by blast
  show ?case
  proof (cases "r = 255")
    case True
    then show ?thesis using Suc(4) c lt al by (simp add: new_process_loop_oom)
  next
    case False
    then have r: "0 < r" "r \<le> 64" "m1 = mem(r := 1)" using c by auto
    have run: "mem_write m1 (get_address ptp i) r \<bind> new_process_loop p n ptp (i + 1) = Some (out, mem')"
      using Suc(4) new_process_loop_step [OF lt al False] by simp
    then obtain m2 where m2: "mem_write m1 (get_address ptp i) r = Some m2"
      and rest: "new_process_loop p n ptp (i + 1) m2 = Some (out, mem')"
      by (auto split: bind_splits)
    have m2e: "m2 = m1(get_address ptp i := word_of_int r)"
      using m2 by (auto simp: mem_write_def split: if_splits)
    have ga: "256 \<le> get_address ptp i" using assms Suc(3) by (rule get_address_ge)
    have "mem' a = m2 a"
      using Suc(1) [of "i + 1" m2] Suc(2,3,5) rest by auto
    moreover have "m2 a = mem a"
      using Suc(5) ga r lt Suc(3) by (auto simp: m2e)
    ultimately show ?thesis by simp
  qed
qed

text \<open>
  \<open>new_process\<close> for a process id in range never writes to byte 0, and it leaves alone
  the entries of its page table from index \<open>page_count\<close> on.
\<close>

lemma new_process_frame:
  assumes "0 \<le> p" and "p < PAGE_SIZE - PTP_OFFSET"
    and "new_process p n mem = Some (out, mem')"
    and "allocate_page mem = Some (ptp, m0)"
    and "a \<le> 0 \<or> (\<exists>i. 0 \<le> i \<and> n \<le> i \<and> i < 256 \<and> a = get_address ptp i \<and> ptp \<noteq> 255)"
  shows "mem' a = mem a"
proof -
  have c: "(ptp = 255 \<and> m0 = mem) \<or> (0 < ptp \<and> ptp \<le> 64 \<and> m0 = mem(ptp := 1))"
    using allocate_page_spec [of mem] assms(4) by auto
  show ?thesis
  proof (cases "ptp = 255")
    case True
    then show ?thesis using assms(3,4) c by (simp add: new_process_def)
  next
    case False
    then have r: "0 < ptp" "ptp \<le> 64" "m0 = mem(ptp := 1)" using c by auto
    have pb: "64 \<le> PTP_OFFSET + p" "PTP_OFFSET + p < 256"
      using assms(1,2) by (simp_all add: PAGE_SIZE_def PTP_OFFSET_def)
    define m2 where "m2 = m0(PTP_OFFSET + p := word_of_int ptp)"
    have lp: "new_process_loop p n ptp 0 m2 = Some (out, mem')"
      using assms(3,4) False pb by (simp add: new_process_def mem_write_def MEM_SIZE_def m2_def)
    have ge: "256 \<le> get_address ptp i" if "0 \<le> i" for i using r(1) that by (rule get_address_ge)
    have ne: "get_address ptp i \<noteq> get_address ptp j" if "0 \<le> i" "i < 256" "0 \<le> j" "j < n" "n \<le> i" for i j
      using that by (simp add: get_address_add)
    have cond: "a \<le> 0 \<or> (64 < a \<and> (\<forall>j. 0 \<le> j \<and> j < n \<longrightarrow> a \<noteq> get_address ptp j))"
      using assms(5) ge ne by fastforce
    have "mem' a = m2 a"
      using new_process_loop_frame [OF r(1) _ lp cond] by simp
    moreover have a256: "a \<le> 0 \<or> 256 \<le> a" using assms(5) ge by auto
    then have "m2 a = mem a"
      using r pb by (auto simp: m2_def)
    ultimately show ?thesis by simp
  qed
qed

section \<open>A process created, killed, and its page reused\<close>

text \<open>The equations that evaluate the operations on a concrete store.\<close>

lemmas eval_defs = mem_read_def mem_write_def MEM_SIZE_def PAGE_COUNT_def PAGE_SHIFT_def PTP_OFFSET_def
  get_address_def initialize_mem_def allocate_page_def deallocate_page_def new_process_def
  kill_process_def get_physical_addr_def store_value_def load_value_def get_page_table_def
  allocate_loop.simps new_process_loop.simps kill_loop.simps Let_def

lemma created_mem_reached: "new_process 0 2 initialize_mem = Some ([], created_mem)"
  by (simp add: eval_defs created_mem_def)

lemma killed_mem_reached: "kill_process 0 created_mem = Some ([], killed_mem)"
  by (simp add: eval_defs created_mem_def killed_mem_def)

lemma reused_mem_reached: "new_process 1 0 killed_mem = Some ([], reused_mem)"
  by (simp add: eval_defs created_mem_def killed_mem_def reused_mem_def)

section \<open>Stale page tables\<close>

text \<open>
  Claim C9. \<open>kill_process\<close> for a process (id in the directory's range) whose directory
  entry is not 0 frees pages by clearing bytes of page 0 and never writes to the
  page-table page: each of its 256 entries is the same after the kill. When a following
  \<open>new_process\<close> gets the same page for its page table, every entry it does not
  overwrite, those from index \<open>page_count\<close> on, still holds the value the killed process
  left there.
\<close>

theorem kill_process_keeps_page_table:
  assumes "0 \<le> proc_num" and "proc_num < PAGE_SIZE - PTP_OFFSET"
    and "get_page_table proc_num mem = Some (page_table_page, mem0)"
    and "page_table_page \<noteq> 0"
    and "kill_process proc_num mem = Some (out1, mem1)"
    and "0 \<le> i" and "i < 256"
  shows "mem1 (get_address page_table_page i) = mem (get_address page_table_page i) \<and>
         (0 \<le> q \<and> q < PAGE_SIZE - PTP_OFFSET \<and> allocate_page mem1 = Some (page_table_page, m0) \<and>
          new_process q page_count mem1 = Some (out2, mem2) \<and> page_count \<le> i
          \<longrightarrow> mem2 (get_address page_table_page i) = mem (get_address page_table_page i))"
proof -
  have pb: "0 \<le> PTP_OFFSET + proc_num" "PTP_OFFSET + proc_num < MEM_SIZE"
    using assms(1,2) by (simp_all add: PAGE_SIZE_def PTP_OFFSET_def MEM_SIZE_def)
  have ptp: "page_table_page = uint (mem (PTP_OFFSET + proc_num))"
    using assms(3) pb by (auto simp: get_page_table_eq mem_read_def)
  then have nz: "mem (PTP_OFFSET + proc_num) \<noteq> 0" and pos: "0 < page_table_page"
    using assms(4) uint8_pos [of "mem (PTP_OFFSET + proc_num)"] by (auto simp: uint_0_iff)
  have ge: "256 \<le> get_address page_table_page i" using pos assms(6) by (rule get_address_ge)
  have a: "mem1 (get_address page_table_page i) = mem (get_address page_table_page i)"
    using kill_process_frame [OF assms(1,2) nz assms(5)] ge by simp
  have b: "mem2 (get_address page_table_page i) = mem1 (get_address page_table_page i)"
    if "0 \<le> q" "q < PAGE_SIZE - PTP_OFFSET" "allocate_page mem1 = Some (page_table_page, m0)"
       "new_process q page_count mem1 = Some (out2, mem2)" "page_count \<le> i"
  proof -
    have "page_table_page \<noteq> 255 \<or> mem2 = mem1"
      using that(3,4) allocate_page_spec [of mem1] by (auto simp: new_process_def)
    then show ?thesis
    proof
      assume "page_table_page \<noteq> 255"
      then show ?thesis
        using new_process_frame [OF that(1,2,4,3)] assms(6,7) that(5) by blast
    qed simp
  qed
  show ?thesis using a b by auto
qed

theorem kill_process_keeps_page_table_witness:
  "get_page_table 0 created_mem = Some (1, created_mem) \<and>
   kill_process 0 created_mem = Some ([], killed_mem) \<and>
   allocate_page killed_mem = Some (1, killed_mem(1 := 1)) \<and>
   new_process 1 0 killed_mem = Some ([], reused_mem) \<and>
   created_mem (get_address 1 1) = 3 \<and>
   killed_mem (get_address 1 1) = 3 \<and>
   reused_mem (get_address 1 1) = 3"
proof -
  have h1: "get_page_table 0 created_mem = Some (1, created_mem)"
    by (simp add: get_page_table_eq mem_read_def created_mem_def initialize_mem_def
        PTP_OFFSET_def MEM_SIZE_def get_address_def)
  have h2: "allocate_page killed_mem = Some (1, killed_mem(1 := 1))"
    by (simp add: eval_defs created_mem_def killed_mem_def)
  have v: "created_mem (get_address 1 1) = 3"
    by (simp add: created_mem_def initialize_mem_def get_address_def PAGE_SHIFT_def)
  have "killed_mem (get_address 1 1) = created_mem (get_address 1 1) \<and>
        reused_mem (get_address 1 1) = created_mem (get_address 1 1)"
    using kill_process_keeps_page_table [of 0 created_mem 1 created_mem "[]" killed_mem 1
        1 "killed_mem(1 := 1)" 0 "[]" reused_mem]
      h1 h2 killed_mem_reached reused_mem_reached
    by (simp add: PAGE_SIZE_def PTP_OFFSET_def)
  then show ?thesis using h1 h2 v killed_mem_reached reused_mem_reached by simp
qed

section \<open>The free-map entry of page 0\<close>

lemma translate_eq:
  "mem_read mem (proc_num + PTP_OFFSET) = Some ptp \<Longrightarrow>
   mem_read mem (get_address ptp (drop_bit PAGE_SHIFT v_addr)) = Some pp \<Longrightarrow>
   get_physical_addr proc_num v_addr mem = Some (get_address pp (v_addr AND 255), mem)"
  by (simp add: get_physical_addr_def)

lemma offset_bounds: "0 \<le> (v_addr :: int) AND 255 \<and> v_addr AND 255 < 256"
proof -
  have "v_addr AND 255 \<le> 255" by (rule AND_upper2) simp
  then show ?thesis by simp
qed

lemma store_value_mapped_frame:
  assumes "mapped p va mem" and "store_value p va v mem = Some (out, mem')" and "a < 256"
  shows "mem' a = mem a"
proof -
  obtain ptp pp where ptp: "mem_read mem (p + PTP_OFFSET) = Some ptp"
    and pp: "mem_read mem (get_address ptp (drop_bit PAGE_SHIFT va)) = Some pp" and nz: "pp \<noteq> 0"
    using assms(1)
    by (auto simp: mapped_def get_page_table_eq add.commute split: option.splits bind_splits)
  have "0 \<le> pp" using pp by (auto simp: mem_read_def split: if_splits)
  then have pos: "0 < pp" using nz by simp
  have ge: "256 \<le> get_address pp (va AND 255)"
    using pos offset_bounds [of va] by (intro get_address_ge) simp_all
  have "mem' = mem(get_address pp (va AND 255) := word_of_int v)"
    using assms(2) translate_eq [OF ptp pp]
    by (auto simp: store_value_def mem_write_def split: if_splits)
  then show ?thesis using ge assms(3) by simp
qed

lemma run_command_page0:
  assumes "page0_safe c mem" and "run_command c mem = Some (out, mem')"
  shows "mem' 0 = mem 0"
proof (cases c)
  case (NP p n)
  obtain ptp m0 where "allocate_page mem = Some (ptp, m0)"
    using allocate_page_spec [of mem] by blast
  then show ?thesis
    using assms NP new_process_frame [of p n mem out mem' ptp m0 0] by simp
next
  case (KP p)
  then show ?thesis
    using assms kill_process_frame [of p mem out mem' 0] by simp
next
  case (SB p va v)
  then show ?thesis
    using assms store_value_mapped_frame [of p va mem v out mem' 0] by simp
next
  case (LB p va)
  then show ?thesis
    using assms by (auto simp: load_value_def get_physical_addr_def split: bind_splits)
qed

lemma run_commands_page0:
  "page0_safe_run cmds mem \<Longrightarrow> run_commands cmds mem = Some (out, mem') \<Longrightarrow> mem' 0 = mem 0"
proof (induction cmds arbitrary: mem out)
  case Nil
  then show ?case by simp
next
  case (Cons c cs)
  from Cons.prems(2) obtain out1 mem1 out2 where
    c: "run_command c mem = Some (out1, mem1)" and cs: "run_commands cs mem1 = Some (out2, mem')"
    by (auto split: bind_splits)
  have "page0_safe c mem" "page0_safe_run cs mem1" using Cons.prems(1) c by simp_all
  then have "mem1 0 = mem 0" "mem' 0 = mem1 0"
    using run_command_page0 [OF _ c] Cons.IH [OF _ cs] by simp_all
  then show ?case by simp
qed

text \<open>
  Claim C3, amended. After initialization byte 0 of the store is 1 and every other byte
  is 0; \<open>allocate_page\<close> never returns page 0 and never writes byte 0; and byte 0 is
  still 1 after every sequence of \<open>np\<close>, \<open>kp\<close>, \<open>sb\<close> and \<open>lb\<close> commands in which the
  process ids of \<open>np\<close> and \<open>kp\<close> lie inside the directory, every \<open>kp\<close> is for a process
  with a nonzero directory entry, and every \<open>sb\<close> is to a mapped address.
\<close>

theorem page0_stays_allocated:
  "initialize_mem 0 = 1 \<and> (\<forall>a. a \<noteq> 0 \<longrightarrow> initialize_mem a = 0) \<and>
   (\<forall>mem r mem'. allocate_page mem = Some (r, mem') \<longrightarrow> r \<noteq> 0 \<and> mem' 0 = mem 0) \<and>
   (page0_safe_run cmds initialize_mem \<and> run_commands cmds initialize_mem = Some (out, mem_end)
      \<longrightarrow> mem_end 0 = 1)"
proof -
  have i0: "initialize_mem = (\<lambda>_. 0)(0 := 1)" by (simp add: initialize_mem_def get_address_def)
  have a: "r \<noteq> 0 \<and> mem' 0 = mem 0" if "allocate_page mem = Some (r, mem')" for mem r mem'
    using allocate_page_spec [of mem] that by auto
  have b: "mem_end 0 = 1"
    if "page0_safe_run cmds initialize_mem" "run_commands cmds initialize_mem = Some (out, mem_end)"
    using run_commands_page0 [OF that] by (simp add: i0)
  show ?thesis using a b by (auto simp: i0)
qed

lemma unmapped_store: "store_value 0 512 0 created_mem = Some ([Store_event 0 512 0 0], unmapped_store_mem)"
  by (simp add: eval_defs created_mem_def unmapped_store_mem_def)

text \<open>
  Claim C3 fails as stated: after \<open>np 0 2\<close>, virtual page 2 of process 0 is unmapped, so
  address 512 translates to physical address 0, and \<open>sb 0 512 0\<close> overwrites the free-map
  entry of page 0 with 0.
\<close>

theorem store_unmapped_clears_page0_entry:
  "initialize_mem 0 = 1 \<and>
   run_commands [NP 0 2, SB 0 512 0] initialize_mem = Some ([Store_event 0 512 0 0], unmapped_store_mem) \<and>
   unmapped_store_mem 0 = 0"
  by (simp add: created_mem_reached unmapped_store)
     (simp add: initialize_mem_def get_address_def unmapped_store_mem_def)

lemma stored_mem_reached:
  "store_value 1 0 42 reused_mem = Some ([Store_event 1 0 512 42], stored_mem)"
  by (simp add: eval_defs created_mem_def killed_mem_def reused_mem_def stored_mem_def)

lemma stored_mem_load:
  "load_value 1 0 stored_mem = Some ([Load_event 1 0 512 42], stored_mem)"
  by (simp add: eval_defs created_mem_def killed_mem_def reused_mem_def stored_mem_def)

lemma mapped_reused: "mapped 1 0 reused_mem"
  by (simp add: mapped_def get_page_table_eq eval_defs created_mem_def killed_mem_def reused_mem_def)

theorem page0_stays_allocated_witness:
  "page0_safe_run [NP 0 2, KP 0, NP 1 0, SB 1 0 42, LB 1 0] initialize_mem \<and>
   run_commands [NP 0 2, KP 0, NP 1 0, SB 1 0 42, LB 1 0] initialize_mem =
     Some ([Store_event 1 0 512 42, Load_event 1 0 512 42], stored_mem) \<and>
   stored_mem 0 = 1"
proof -
  have c: "created_mem (PTP_OFFSET + 0) \<noteq> 0"
    by (simp add: created_mem_def PTP_OFFSET_def)
  have r: "run_commands [NP 0 2, KP 0, NP 1 0, SB 1 0 42, LB 1 0] initialize_mem =
     Some ([Store_event 1 0 512 42, Load_event 1 0 512 42], stored_mem)"
    by (simp add: created_mem_reached killed_mem_reached reused_mem_reached stored_mem_reached
        stored_mem_load)
  have s: "page0_safe_run [NP 0 2, KP 0, NP 1 0, SB 1 0 42, LB 1 0] initialize_mem"
    using c
    by (simp add: created_mem_reached killed_mem_reached reused_mem_reached stored_mem_reached
        stored_mem_load mapped_reused PAGE_SIZE_def PTP_OFFSET_def)
  show ?thesis
    using page0_stays_allocated [of "[NP 0 2, KP 0, NP 1 0, SB 1 0 42, LB 1 0]"
        "[Store_event 1 0 512 42, Load_event 1 0 512 42]" stored_mem] r s
    by simp
qed

section \<open>Store followed by load\<close>

lemma forged_mem_reached:
  "run_commands [NP 2 0, SB 1 0 2] reused_mem = Some ([Store_event 1 0 512 2], forged_mem)"
  by (simp add: eval_defs created_mem_def killed_mem_def reused_mem_def forged_mem_def)

lemma forged_mem_store_load:
  "run_commands [SB 2 0 7, LB 2 0] forged_mem =
     Some ([Store_event 2 0 512 7, Load_event 2 0 1792 0], forged_mem(512 := 7))"
  by (simp add: eval_defs created_mem_def killed_mem_def reused_mem_def forged_mem_def)

lemma forged_mem_mapped: "mapped 2 0 forged_mem"
  by (simp add: mapped_def eval_defs created_mem_def killed_mem_def reused_mem_def forged_mem_def)

text \<open>
  Claim C6 fails as stated. Process 1 is created on the page that process 0 used for its
  page table and inherits the mapping of virtual page 0 to page 2; page 2 then becomes
  the page table of process 2, and a store of process 1 writes 2 into its entry 0. Now
  virtual page 0 of process 2 is mapped, to the page table itself: \<open>sb 2 0 7\<close> overwrites
  the entry that translated the address, and the \<open>lb 2 0\<close> that follows translates through
  the new entry 7 and loads 0 from address 1792, not 7.
\<close>

theorem store_load_self_mapped_page_table:
  "run_commands [NP 0 2, KP 0, NP 1 0, NP 2 0, SB 1 0 2] initialize_mem =
     Some ([Store_event 1 0 512 2], forged_mem) \<and>
   mapped 2 0 forged_mem \<and>
   run_commands [SB 2 0 7, LB 2 0] forged_mem =
     Some ([Store_event 2 0 512 7, Load_event 2 0 1792 0], forged_mem(512 := 7)) \<and>
   (7 :: int) mod 256 \<noteq> 0"
proof -
  have "run_commands [NP 0 2, KP 0, NP 1 0, NP 2 0, SB 1 0 2] initialize_mem =
          run_commands [NP 2 0, SB 1 0 2] reused_mem"
    by (simp add: created_mem_reached killed_mem_reached reused_mem_reached)
  then show ?thesis
    using forged_mem_reached forged_mem_store_load forged_mem_mapped by simp
qed

text \<open>
  Claim C6, amended. For a process id inside the directory and a 16-bit virtual address
  whose virtual page is mapped (nonzero page-table entry) to a page of the store other
  than the page table of the process, \<open>store_value\<close> followed at once by \<open>load_value\<close> at
  the same address loads \<open>val mod 256\<close>, from the physical address the store wrote to.
\<close>

theorem store_then_load:
  assumes "0 \<le> proc_num" and "proc_num < PAGE_SIZE - PTP_OFFSET"
    and "0 \<le> v_addr" and "v_addr < 65536"
    and "get_page_table proc_num mem = Some (page_table_page, mem0)"
    and "page_table_page < PAGE_COUNT"
    and "mem_read mem (get_address page_table_page (drop_bit PAGE_SHIFT v_addr)) = Some physical_page"
    and "physical_page \<noteq> 0" and "physical_page < PAGE_COUNT" and "physical_page \<noteq> page_table_page"
  shows "run_commands [SB proc_num v_addr val, LB proc_num v_addr] mem =
           Some ([Store_event proc_num v_addr (get_address physical_page (v_addr AND 255)) val,
                  Load_event proc_num v_addr (get_address physical_page (v_addr AND 255)) (val mod 256)],
                 mem(get_address physical_page (v_addr AND 255) := word_of_int val))"
proof -
  define off where "off = v_addr AND 255"
  define pa where "pa = get_address physical_page off"
  define vp where "vp = drop_bit PAGE_SHIFT v_addr"
  define mem1 where "mem1 = mem(pa := word_of_int val)"
  have pb: "64 \<le> proc_num + PTP_OFFSET" "proc_num + PTP_OFFSET < 256"
    using assms(1,2) by (simp_all add: PAGE_SIZE_def PTP_OFFSET_def)
  have ptp: "mem_read mem (proc_num + PTP_OFFSET) = Some page_table_page"
    using assms(5) by (auto simp: get_page_table_eq add.commute split: bind_splits)
  then have p0: "0 \<le> page_table_page" by (auto simp: mem_read_def split: if_splits)
  have vpb: "0 \<le> vp" "vp < 256"
    using assms(3,4) by (simp_all add: vp_def PAGE_SHIFT_def drop_bit_eq_div)
  have pp0: "0 < physical_page"
    using assms(7,8) by (auto simp: mem_read_def less_le split: if_splits)
  have off: "0 \<le> off" "off < 256" using offset_bounds [of v_addr] by (simp_all add: off_def)
  have pa_eq: "pa = physical_page * 256 + off"
    using off by (simp add: pa_def get_address_add)
  have ea: "get_address page_table_page vp = page_table_page * 256 + vp"
    using vpb by (simp add: get_address_add)
  have pab: "256 \<le> pa" "pa < MEM_SIZE"
    using pp0 assms(9) off by (simp_all add: pa_eq PAGE_COUNT_def MEM_SIZE_def)
  have ne: "pa \<noteq> get_address page_table_page vp"
  proof
    assume "pa = get_address page_table_page vp"
    then have "physical_page * 256 + off = page_table_page * 256 + vp"
      by (simp add: pa_eq ea)
    then have "(physical_page * 256 + off) div 256 = (page_table_page * 256 + vp) div 256"
      by simp
    then have "physical_page = page_table_page" using off vpb by simp
    then show False using assms(10) by simp
  qed
  have tr: "get_physical_addr proc_num v_addr mem = Some (pa, mem)"
    using translate_eq [OF ptp assms(7)] by (simp add: pa_def off_def)
  have st: "store_value proc_num v_addr val mem = Some ([Store_event proc_num v_addr pa val], mem1)"
    using pab by (simp add: store_value_def tr mem_write_def mem1_def)
  have r1: "mem_read mem1 (proc_num + PTP_OFFSET) = Some page_table_page"
    using ptp pb pab by (simp add: mem_read_def mem1_def)
  have r2: "mem_read mem1 (get_address page_table_page (drop_bit PAGE_SHIFT v_addr)) = Some physical_page"
    using assms(7) ne by (auto simp: mem_read_def mem1_def vp_def split: if_splits)
  have tr1: "get_physical_addr proc_num v_addr mem1 = Some (pa, mem1)"
    using translate_eq [OF r1 r2] by (simp add: pa_def off_def)
  have rd: "mem_read mem1 pa = Some (val mod 256)"
    using pab by (simp add: mem_read_def mem1_def uint_word_of_int)
  have ld: "load_value proc_num v_addr mem1 = Some ([Load_event proc_num v_addr pa (val mod 256)], mem1)"
    by (simp add: load_value_def tr1 rd)
  show ?thesis using st ld by (simp add: pa_def mem1_def off_def)
qed

theorem store_then_load_witness:
  "run_commands [SB 0 0 300, LB 0 0] created_mem =
     Some ([Store_event 0 0 512 300, Load_event 0 0 512 44], created_mem(512 := 44))"
proof -
  have "created_mem(512 := 300) = created_mem(512 := 44)" by (simp add: fun_eq_iff)
  then show ?thesis
  using store_then_load [of 0 0 created_mem 1 created_mem 2 300]
  by (simp add: get_page_table_eq mem_read_def created_mem_def initialize_mem_def get_address_def
      PTP_OFFSET_def PAGE_SIZE_def PAGE_COUNT_def PAGE_SHIFT_def MEM_SIZE_def)
qed

section \<open>Create followed by destroy\<close>











end
